theory Spec2Isabelle
  imports Main "HOL-Library.Sublist" "HOL-Library.Word"
begin

section \<open>The outside world of scraper.py\<close>

text \<open>
  \<^verbatim>\<open>scraper.py\<close> is a pipeline over three libraries (\<^verbatim>\<open>urllib.parse\<close>, \<^verbatim>\<open>httpx\<close>,
  \<^verbatim>\<open>bs4\<close>) and the file system. The functions of the script are embedded as they are
  written; what the libraries and the operating system answer is an explicit environment,
  read as a fixed function of the arguments during one run. Python \<^verbatim>\<open>str\<close> is
  \<^typ>\<open>string\<close>, \<^verbatim>\<open>bytes\<close> is a list of 8-bit words, file system paths are strings.
\<close>

type_synonym bytes = "8 word list"

text \<open>
  The exceptions that can cross the script. \<^verbatim>\<open>httpx.HTTPError\<close> has two subclasses:
  \<^verbatim>\<open>RequestError\<close> (transport errors, timeouts, too many redirects, decoding errors) and
  \<^verbatim>\<open>HTTPStatusError\<close> (raised by \<^verbatim>\<open>raise_for_status\<close>). Both carry the request they
  belong to (first argument: the string of \<^verbatim>\<open>e.request.url\<close>) and a message
  (\<^verbatim>\<open>str(e)\<close>). Everything else (\<^verbatim>\<open>ValueError\<close>, \<^verbatim>\<open>httpx.InvalidURL\<close>,
  \<^verbatim>\<open>PermissionError\<close> from \<^verbatim>\<open>mkdir\<close>, ...) is \<open>OtherException\<close>.
\<close>

datatype exn =
    RequestError string string
  | HTTPStatusError string string
  | OtherException string

text \<open>\<^verbatim>\<open>urlparse(url)\<close>: the six components of \<^verbatim>\<open>ParseResult\<close>.\<close>

record url_parts =
  scheme :: string
  netloc :: string
  path :: string
  params :: string
  query :: string
  fragment :: string

text \<open>
  An \<^verbatim>\<open>httpx.Response\<close>: the status code, the URL of the request the response answers
  (\<^verbatim>\<open>response.request.url\<close>; with \<^verbatim>\<open>follow_redirects=True\<close> this is the request of the
  last hop), the raw body (\<^verbatim>\<open>.content\<close>), the decoded body (\<^verbatim>\<open>.text\<close>) and the message
  of the \<^verbatim>\<open>HTTPStatusError\<close> that \<^verbatim>\<open>raise_for_status\<close> builds for it.
\<close>

record response =
  status_code :: nat
  request_url :: string
  content :: bytes
  body_text :: string
  status_message :: string

text \<open>A tag of the parsed page: \<^verbatim>\<open>node.get(key)\<close> looks \<^verbatim>\<open>key\<close> up in the dict \<^verbatim>\<open>node.attrs\<close>.\<close>

record tag =
  attrs :: "string \<rightharpoonup> string"

text \<open>
  What \<^verbatim>\<open>open(local_path, "wb")\<close> followed by \<^verbatim>\<open>out_file.write(content)\<close> and the close
  of the \<^verbatim>\<open>with\<close> block does: it completes; or \<^verbatim>\<open>open\<close> raises an \<^verbatim>\<open>IOError\<close> and no
  file is touched; or the file is created or truncated and an \<^verbatim>\<open>IOError\<close> is raised after
  only the first \<open>k\<close> bytes are stored; or an exception that is not an \<^verbatim>\<open>IOError\<close> is
  raised before anything is touched.
\<close>

datatype io_result =
    IoCompleted
  | IoOpenError string
  | IoWriteError nat string
  | IoOtherException string

text \<open>\<^verbatim>\<open>out_dir.mkdir(parents=True, exist_ok=False)\<close>.\<close>

datatype mkdir_result =
    MkdirCreated
  | MkdirFileExists
  | MkdirOtherException string

record env =
  urlparse :: "string \<Rightarrow> exn + url_parts"
  urlunparse :: "url_parts \<Rightarrow> string"
  httpx_get :: "string \<Rightarrow> bool \<Rightarrow> exn + response"
  find_all_a :: "string \<Rightarrow> tag list"
  url_repr :: "string \<Rightarrow> string"
  path_name :: "string \<Rightarrow> string"
  joinpath :: "string \<Rightarrow> string \<Rightarrow> string"
  write_bytes :: "string \<Rightarrow> bytes \<Rightarrow> io_result"
  mkdir_parents :: "string \<Rightarrow> mkdir_result"
  elapsed_str :: string

text \<open>
  \<open>httpx_get e url follow\<close> is \<^verbatim>\<open>httpx.get(url, follow_redirects=follow)\<close>;
  \<open>find_all_a e page\<close> is \<^verbatim>\<open>BeautifulSoup(page, "html.parser").find_all("a")\<close>, the
  anchor elements in document order; \<open>url_repr e u\<close> is \<^verbatim>\<open>repr\<close> of the \<^verbatim>\<open>httpx.URL\<close>;
  \<open>path_name e p\<close> is \<^verbatim>\<open>Path(p).name\<close>; \<open>joinpath e d f\<close> is \<^verbatim>\<open>d.joinpath(f)\<close>;
  \<open>elapsed_str e\<close> is the rendering of the difference of the two \<^verbatim>\<open>time.perf_counter()\<close>
  readings.

  The state the script changes: the files on disk and what has been printed (one entry
  per call of \<^verbatim>\<open>print\<close>).
\<close>

record world =
  files :: "string \<rightharpoonup> bytes"
  stdout :: "string list"

definition print_line :: "string \<Rightarrow> world \<Rightarrow> world" where
  "print_line s w = w\<lparr>stdout := stdout w @ [s]\<rparr>"

section \<open>assemble\_links\<close>

text \<open>
  \<^verbatim>\<open>if not prefix:\<close> holds for \<^verbatim>\<open>None\<close> and for the empty string. The derived prefix is
  \<^verbatim>\<open>urlunparse([url_parts.scheme, url_parts.netloc, "", "", "", ""])\<close>.
\<close>

definition derive_prefix :: "env \<Rightarrow> string \<Rightarrow> exn + string" where
  "derive_prefix e url =
     (case urlparse e url of
        Inl ex \<Rightarrow> Inl ex
      | Inr url_parts \<Rightarrow>
          Inr (urlunparse e \<lparr>scheme = scheme url_parts, netloc = netloc url_parts,
                 path = [], params = [], query = [], fragment = []\<rparr>))"

definition resolve_prefix :: "env \<Rightarrow> string \<Rightarrow> string option \<Rightarrow> exn + string" where
  "resolve_prefix e url pfx =
     (case pfx of
        None \<Rightarrow> derive_prefix e url
      | Some p \<Rightarrow> if p = [] then derive_prefix e url else Inr p)"

text \<open>
  \<^verbatim>\<open>[prefix + node.get("href") for node in soup.find_all("a") if node.get("href")]\<close>:
  an anchor contributes when its \<^verbatim>\<open>href\<close> is neither \<^verbatim>\<open>None\<close> nor empty.
\<close>

definition prefixed_hrefs :: "string \<Rightarrow> tag list \<Rightarrow> string list" where
  "prefixed_hrefs p nodes =
     concat (map (\<lambda>node. case attrs node ''href'' of
                            None \<Rightarrow> []
                          | Some h \<Rightarrow> if h = [] then [] else [p @ h]) nodes)"

text \<open>
  \<^verbatim>\<open>httpx.get(url)\<close> here has no \<^verbatim>\<open>try\<close> and no \<^verbatim>\<open>raise_for_status\<close>: an exception of
  the request leaves the function, any response that arrives is parsed whatever its
  status. \<^verbatim>\<open>contains in i\<close> is contiguous substring containment, \<^const>\<open>sublist\<close>.
\<close>

definition assemble_links :: "env \<Rightarrow> string \<Rightarrow> string \<Rightarrow> string option \<Rightarrow> exn + string list" where
  "assemble_links e url contains pfx =
     (case resolve_prefix e url pfx of
        Inl ex \<Rightarrow> Inl ex
      | Inr p \<Rightarrow>
          (case httpx_get e url False of
             Inl ex \<Rightarrow> Inl ex
           | Inr r \<Rightarrow>
               (let page = body_text r;
                    links = prefixed_hrefs p (find_all_a e page)
                in Inr (filter (\<lambda>i. sublist contains i) links))))"

section \<open>download\_file\<close>

text \<open>
  \<^verbatim>\<open>r.raise_for_status()\<close> returns on a 2xx status and raises \<^verbatim>\<open>HTTPStatusError\<close>
  otherwise; the error carries the request of the response.
\<close>

definition raise_for_status :: "response \<Rightarrow> exn + response" where
  "raise_for_status r =
     (if 200 \<le> status_code r \<and> status_code r \<le> 299 then Inr r
      else Inl (HTTPStatusError (request_url r) (status_message r)))"

text \<open>\<^verbatim>\<open>f"Error while requesting {e.request.url!r}.\n{e}"\<close>\<close>

definition request_diagnostic :: "env \<Rightarrow> string \<Rightarrow> string \<Rightarrow> string" where
  "request_diagnostic e u msg =
     ''Error while requesting '' @ url_repr e u @ ''.'' @ [CHR 0x0A] @ msg"

text \<open>
  \<^verbatim>\<open>except httpx.HTTPError as e\<close>: both subclasses are printed and turned into \<^verbatim>\<open>None\<close>,
  any other exception leaves the function.
\<close>

fun except_HTTPError :: "env \<Rightarrow> exn \<Rightarrow> world \<Rightarrow> (exn + bytes option) \<times> world" where
  "except_HTTPError e (RequestError u msg) w =
     (Inr None, print_line (request_diagnostic e u msg) w)"
| "except_HTTPError e (HTTPStatusError u msg) w =
     (Inr None, print_line (request_diagnostic e u msg) w)"
| "except_HTTPError e (OtherException msg) w = (Inl (OtherException msg), w)"

definition download_file :: "env \<Rightarrow> string \<Rightarrow> world \<Rightarrow> (exn + bytes option) \<times> world" where
  "download_file e url w =
     (case httpx_get e url True of
        Inl ex \<Rightarrow> except_HTTPError e ex w
      | Inr r \<Rightarrow>
          (case raise_for_status r of
             Inl ex \<Rightarrow> except_HTTPError e ex w
           | Inr r' \<Rightarrow> (Inr (Some (content r')), w)))"

section \<open>write\_file\<close>

definition write_file :: "env \<Rightarrow> bytes \<Rightarrow> string \<Rightarrow> world \<Rightarrow> (exn + string) \<times> world" where
  "write_file e cont local_path w =
     (case write_bytes e local_path cont of
        IoCompleted \<Rightarrow>
          (Inr (''Completed write to: '' @ local_path),
           w\<lparr>files := (files w)(local_path \<mapsto> cont)\<rparr>)
      | IoOpenError msg \<Rightarrow>
          (Inr (''Failed to write to: '' @ local_path),
           print_line (''Cannot write to file: '' @ msg) w)
      | IoWriteError k msg \<Rightarrow>
          (Inr (''Failed to write to: '' @ local_path),
           print_line (''Cannot write to file: '' @ msg)
             (w\<lparr>files := (files w)(local_path \<mapsto> take k cont)\<rparr>))
      | IoOtherException msg \<Rightarrow> (Inl (OtherException msg), w))"

section \<open>get\_link\_data\<close>

text \<open>
  The body of the \<^verbatim>\<open>for\<close> loop, once per pair of \<^verbatim>\<open>zip(links, fnames)\<close>.
  \<^verbatim>\<open>if dl_bytes:\<close> holds when the value is neither \<^verbatim>\<open>None\<close> nor \<^verbatim>\<open>b""\<close>. The counter is
  incremented after the status string of \<^verbatim>\<open>write_file\<close> is printed; the string is not
  inspected.
\<close>

fun download_loop :: "env \<Rightarrow> string \<Rightarrow> (string \<times> string) list \<Rightarrow> nat \<Rightarrow> world
    \<Rightarrow> (exn + nat) \<times> world" where
  "download_loop e out_dir [] fcount w = (Inr fcount, w)"
| "download_loop e out_dir ((link, fname) # rest) fcount w =
     (case download_file e link w of
        (Inl ex, w1) \<Rightarrow> (Inl ex, w1)
      | (Inr None, w1) \<Rightarrow> download_loop e out_dir rest fcount w1
      | (Inr (Some dl_bytes), w1) \<Rightarrow>
          if dl_bytes = [] then download_loop e out_dir rest fcount w1
          else
            (let out_path = joinpath e out_dir fname
             in case write_file e dl_bytes out_path w1 of
                  (Inl ex, w2) \<Rightarrow> (Inl ex, w2)
                | (Inr st, w2) \<Rightarrow>
                    download_loop e out_dir rest (fcount + 1) (print_line st w2)))"

definition get_link_data :: "env \<Rightarrow> string \<Rightarrow> string \<Rightarrow> string \<Rightarrow> world
    \<Rightarrow> (exn + nat \<times> nat) \<times> world" where
  "get_link_data e url contains out_dir w =
     (case assemble_links e url contains None of
        Inl ex \<Rightarrow> (Inl ex, w)
      | Inr links \<Rightarrow>
          (let fnames = map (path_name e) links
           in case download_loop e out_dir (zip links fnames) 0 w of
                (Inl ex, w') \<Rightarrow> (Inl ex, w')
              | (Inr fcount, w') \<Rightarrow> (Inr (fcount, length links), w')))"

section \<open>main\<close>

text \<open>\<^verbatim>\<open>str\<close> of a Python \<^verbatim>\<open>int\<close>, as the f-strings of \<^verbatim>\<open>main\<close> render it.\<close>

fun str_nat :: "nat \<Rightarrow> string" where
  "str_nat n =
     (if n < 10 then [char_of (48 + n)]
      else str_nat (n div 10) @ [char_of (48 + n mod 10)])"

definition str_int :: "int \<Rightarrow> string" where
  "str_int i = (if i < 0 then ''-'' @ str_nat (nat (- i)) else str_nat (nat i))"

text \<open>
  \<^verbatim>\<open>main\<close> takes the downloader as an argument. Only \<^verbatim>\<open>FileExistsError\<close> of \<^verbatim>\<open>mkdir\<close> is
  caught; nothing around the downloader is.
\<close>

definition main :: "(string \<Rightarrow> string \<Rightarrow> string \<Rightarrow> world \<Rightarrow> (exn + nat \<times> nat) \<times> world)
    \<Rightarrow> env \<Rightarrow> string \<Rightarrow> string \<Rightarrow> string \<Rightarrow> world \<Rightarrow> (exn + unit) \<times> world" where
  "main downloader e url contains out_dir w =
     (case mkdir_parents e out_dir of
        MkdirOtherException msg \<Rightarrow> (Inl (OtherException msg), w)
      | mk \<Rightarrow>
          (let w0 = (if mk = MkdirFileExists
                     then print_line (''Output directory ('' @ out_dir @ '') already exists.'') w
                     else w)
           in case downloader url contains out_dir w0 of
                (Inl ex, w1) \<Rightarrow> (Inl ex, w1)
              | (Inr (cnt, tot), w1) \<Rightarrow>
                  (Inr (),
                   print_line ([CHR 0x0A] @ str_int (int tot - int cnt) @ '' downloads failed.'')
                     (print_line ([CHR 0x0A] @ str_nat cnt @ '' downloads in '' @ elapsed_str e
                                    @ '' seconds.'') w1))))"

section \<open>Vocabulary of the properties\<close>

text \<open>
  What \<^verbatim>\<open>download_file\<close> returns for a link (the value does not depend on the files and
  the output so far), and whether \<^verbatim>\<open>if dl_bytes:\<close> holds for it.
\<close>

definition fetch_value :: "env \<Rightarrow> string \<Rightarrow> exn + bytes option" where
  "fetch_value e link = fst (download_file e link \<lparr>files = Map.empty, stdout = []\<rparr>)"

definition fetch_truthy :: "env \<Rightarrow> string \<Rightarrow> bool" where
  "fetch_truthy e link =
     (case fetch_value e link of
        Inl ex \<Rightarrow> False
      | Inr None \<Rightarrow> False
      | Inr (Some b) \<Rightarrow> b \<noteq> [])"

text \<open>
  The writes for which \<^verbatim>\<open>write_file\<close> reported success: the printed status strings that
  start with \<^verbatim>\<open>Completed write to: \<close>.
\<close>

definition completed_writes :: "world \<Rightarrow> nat" where
  "completed_writes w = length (filter (prefix ''Completed write to: '') (stdout w))"

text \<open>
  The host inside a network location \<^verbatim>\<open>[userinfo@]host[:port]\<close>, split as
  \<^verbatim>\<open>ParseResult.hostname\<close> splits it (before lower-casing): what follows the last
  \<^verbatim>\<open>@\<close>, up to the colon of the port; a bracketed IPv6 literal is taken between its
  brackets.
\<close>

definition netloc_host :: "string \<Rightarrow> string" where
  "netloc_host nl =
     (let hostinfo = rev (takeWhile (\<lambda>c. c \<noteq> CHR ''@'') (rev nl))
      in if CHR ''['' \<in> set hostinfo
         then takeWhile (\<lambda>c. c \<noteq> CHR '']'') (drop 1 (dropWhile (\<lambda>c. c \<noteq> CHR ''['') hostinfo))
         else takeWhile (\<lambda>c. c \<noteq> CHR '':'') hostinfo)"

declare str_nat.simps [simp del]

section \<open>An example site\<close>

text \<open>
  A small concrete environment on which the theorems below are run: a listing page on
  \<^verbatim>\<open>example.com\<close> with four anchors (one of them without \<^verbatim>\<open>href\<close>), a second listing
  page whose host does not answer, and six files: two that download, one with an empty
  body, one that is missing (404), one that the server redirects to another host where it
  is gone (404 at the last hop), and one whose connection is refused. The file
  \<^verbatim>\<open>out/cat_2.csv\<close> cannot be opened for writing.
  \<^verbatim>\<open>site_urlparse\<close> also knows the listing URL written with a port and with userinfo.
\<close>

definition listing_url :: string where
  "listing_url = ''https://example.com/data/index.html?page=1#top''"

definition listing_page :: string where
  "listing_page =
     ''<a href=/a/cat_1.csv>1</a><a href=/a/dog_1.csv>2</a><a name=top>3</a><a href=/a/cat_2.csv>4</a>''"

definition site_urlparse :: "string \<Rightarrow> exn + url_parts" where
  "site_urlparse u =
     (if u = listing_url then
        Inr \<lparr>scheme = ''https'', netloc = ''example.com'', path = ''/data/index.html'',
             params = [], query = ''page=1'', fragment = ''top''\<rparr>
      else if u = ''https://example.com/other/list.html'' then
        Inr \<lparr>scheme = ''https'', netloc = ''example.com'', path = ''/other/list.html'',
             params = [], query = [], fragment = []\<rparr>
      else if u = ''https://example.com:8443/data/index.html'' then
        Inr \<lparr>scheme = ''https'', netloc = ''example.com:8443'', path = ''/data/index.html'',
             params = [], query = [], fragment = []\<rparr>
      else if u = ''https://user:pw@example.com/data/index.html'' then
        Inr \<lparr>scheme = ''https'', netloc = ''user:pw@example.com'', path = ''/data/index.html'',
             params = [], query = [], fragment = []\<rparr>
      else if u = ''https://down.example.com/index.html'' then
        Inr \<lparr>scheme = ''https'', netloc = ''down.example.com'', path = ''/index.html'',
             params = [], query = [], fragment = []\<rparr>
      else Inr \<lparr>scheme = [], netloc = [], path = u, params = [], query = [], fragment = []\<rparr>)"

definition site_urlunparse :: "url_parts \<Rightarrow> string" where
  "site_urlunparse c =
     (let u0 = (if params c = [] then path c else path c @ '';'' @ params c);
          u1 = (if netloc c = [] then u0 else ''//'' @ netloc c @ u0);
          u2 = (if scheme c = [] then u1 else scheme c @ '':'' @ u1);
          u3 = (if query c = [] then u2 else u2 @ ''?'' @ query c)
      in if fragment c = [] then u3 else u3 @ ''#'' @ fragment c)"

definition ok_response :: "string \<Rightarrow> bytes \<Rightarrow> string \<Rightarrow> response" where
  "ok_response u b t =
     \<lparr>status_code = 200, request_url = u, content = b, body_text = t, status_message = []\<rparr>"

definition not_found_response :: "string \<Rightarrow> response" where
  "not_found_response u =
     \<lparr>status_code = 404, request_url = u, content = [], body_text = [],
      status_message = ''Client error 404 Not Found for url '' @ u\<rparr>"

definition site_get :: "string \<Rightarrow> bool \<Rightarrow> exn + response" where
  "site_get u follow =
     (if u = listing_url \<or> u = ''https://example.com/other/list.html'' then
        Inr (ok_response u [] listing_page)
      else if u = ''https://example.com/a/cat_1.csv'' then Inr (ok_response u [1, 2, 3] [])
      else if u = ''https://example.com/a/cat_2.csv'' then Inr (ok_response u [4, 5] [])
      else if u = ''https://example.com/a/dog_1.csv'' then Inr (ok_response u [] [])
      else if u = ''https://example.com/a/moved.csv'' then
        (if follow then Inr (not_found_response ''https://cdn.example.org/gone.csv'')
         else Inr \<lparr>status_code = 302, request_url = u, content = [], body_text = [],
                   status_message = ''Redirect response 302 Found for url '' @ u\<rparr>)
      else if u = ''https://example.com/a/down.csv'' \<or> u = ''https://down.example.com/index.html''
        then Inl (RequestError u ''[Errno 111] Connection refused'')
      else Inr (not_found_response u))"

definition site_find_all_a :: "string \<Rightarrow> tag list" where
  "site_find_all_a page =
     (if page = listing_page then
        [\<lparr>attrs = [''href'' \<mapsto> ''/a/cat_1.csv'']\<rparr>,
         \<lparr>attrs = [''href'' \<mapsto> ''/a/dog_1.csv'']\<rparr>,
         \<lparr>attrs = [''name'' \<mapsto> ''top'']\<rparr>,
         \<lparr>attrs = [''href'' \<mapsto> ''/a/cat_2.csv'']\<rparr>]
      else [])"

definition site_url_repr :: "string \<Rightarrow> string" where
  "site_url_repr u = ''URL('' @ [CHR 0x27] @ u @ [CHR 0x27] @ '')''"

definition site_path_name :: "string \<Rightarrow> string" where
  "site_path_name p = rev (takeWhile (\<lambda>c. c \<noteq> CHR ''/'') (rev p))"

definition site_joinpath :: "string \<Rightarrow> string \<Rightarrow> string" where
  "site_joinpath d f = d @ ''/'' @ f"

definition site_write_bytes :: "string \<Rightarrow> bytes \<Rightarrow> io_result" where
  "site_write_bytes p b =
     (if p = ''out/cat_2.csv'' then IoOpenError ''[Errno 13] Permission denied''
      else IoCompleted)"

definition site_mkdir :: "string \<Rightarrow> mkdir_result" where
  "site_mkdir d = (if d = ''out'' then MkdirFileExists else MkdirCreated)"

definition site :: env where
  "site = \<lparr>urlparse = site_urlparse, urlunparse = site_urlunparse, httpx_get = site_get,
            find_all_a = site_find_all_a, url_repr = site_url_repr,
            path_name = site_path_name, joinpath = site_joinpath,
            write_bytes = site_write_bytes, mkdir_parents = site_mkdir,
            elapsed_str = ''0.5''\<rparr>"

definition fresh_world :: world where
  "fresh_world = \<lparr>files = Map.empty, stdout = []\<rparr>"

section \<open>Properties of assemble\_links\<close>

lemma prefixed_hrefs_as_map_filter:
  "prefixed_hrefs p nodes =
     map (\<lambda>h. p @ h) (filter (\<lambda>h. h \<noteq> []) (List.map_filter (\<lambda>node. attrs node ''href'') nodes))"
  by (induction nodes) (simp_all add: prefixed_hrefs_def List.map_filter_def split: option.splits)

lemma assemble_links_unfold:
  assumes "resolve_prefix e url pfx = Inr p" and "httpx_get e url False = Inr r"
  shows "assemble_links e url c pfx =
           Inr (filter (sublist c) (prefixed_hrefs p (find_all_a e (body_text r))))"
  using assms by (simp add: assemble_links_def)

text \<open>
  C3. Once the prefix is fixed and the page has arrived, \<^verbatim>\<open>assemble_links\<close> returns, in
  document order and with duplicates kept, the strings prefix + href of the anchors whose
  href is present and not empty, restricted to those that contain the filter substring;
  every returned link contains the filter substring and none is empty.
\<close>

theorem assemble_links_exact:
  assumes "resolve_prefix e url pfx = Inr p" and "httpx_get e url False = Inr r"
  shows "assemble_links e url c pfx =
           Inr (filter (sublist c)
                  (map (\<lambda>h. p @ h)
                     (filter (\<lambda>h. h \<noteq> [])
                        (List.map_filter (\<lambda>node. attrs node ''href'')
                           (find_all_a e (body_text r))))))
         \<and> (\<forall>links. assemble_links e url c pfx = Inr links
               \<longrightarrow> (\<forall>l \<in> set links. sublist c l \<and> l \<noteq> []))"
proof -
  have eq: "assemble_links e url c pfx =
      Inr (filter (sublist c)
             (map (\<lambda>h. p @ h)
                (filter (\<lambda>h. h \<noteq> [])
                   (List.map_filter (\<lambda>node. attrs node ''href'')
                      (find_all_a e (body_text r))))))"
    using assemble_links_unfold [OF assms] by (simp add: prefixed_hrefs_as_map_filter)
  have "\<forall>l \<in> set links. sublist c l \<and> l \<noteq> []"
    if "assemble_links e url c pfx = Inr links" for links
    using that eq by auto
  with eq show ?thesis by blast
qed

theorem assemble_links_exact_witness:
  "resolve_prefix site listing_url None = Inr ''https://example.com''
   \<and> httpx_get site listing_url False = Inr (ok_response listing_url [] listing_page)
   \<and> assemble_links site listing_url ''cat'' None =
       Inr [''https://example.com/a/cat_1.csv'', ''https://example.com/a/cat_2.csv'']"
proof -
  have h1: "resolve_prefix site listing_url None = Inr ''https://example.com''"
    by (simp add: resolve_prefix_def derive_prefix_def site_def site_urlparse_def
        site_urlunparse_def)
  have h2: "httpx_get site listing_url False = Inr (ok_response listing_url [] listing_page)"
    by (simp add: site_def site_get_def)
  have "assemble_links site listing_url ''cat'' None =
       Inr [''https://example.com/a/cat_1.csv'', ''https://example.com/a/cat_2.csv'']"
    using assemble_links_exact [OF h1 h2, of "''cat''"]
    by (simp add: site_def site_find_all_a_def ok_response_def List.map_filter_def
        sublist_Cons_right)
  with h1 h2 show ?thesis by blast
qed

text \<open>
  C9. The filter is tested against the prefixed link: when the filter substring occurs in
  the prefix, every anchor with a non-empty href is kept, whatever the href is.
\<close>

theorem filter_in_prefix_keeps_all:
  assumes "resolve_prefix e url pfx = Inr p" and "httpx_get e url False = Inr r"
    and "sublist c p"
  shows "assemble_links e url c pfx =
           Inr (map (\<lambda>h. p @ h)
                  (filter (\<lambda>h. h \<noteq> [])
                     (List.map_filter (\<lambda>node. attrs node ''href'')
                        (find_all_a e (body_text r)))))"
proof -
  have "sublist c (p @ h)" for h
    using assms(3) by (metis sublist_order.order_trans sublist_append_rightI)
  then have "filter (sublist c) (map (\<lambda>h. p @ h) hs) = map (\<lambda>h. p @ h) hs" for hs
    by (induction hs) simp_all
  then show ?thesis
    using assemble_links_unfold [OF assms(1,2)] by (simp add: prefixed_hrefs_as_map_filter)
qed

theorem filter_in_prefix_keeps_all_witness:
  "resolve_prefix site listing_url None = Inr ''https://example.com''
   \<and> httpx_get site listing_url False = Inr (ok_response listing_url [] listing_page)
   \<and> sublist ''example'' ''https://example.com''
   \<and> assemble_links site listing_url ''example'' None =
       Inr [''https://example.com/a/cat_1.csv'', ''https://example.com/a/dog_1.csv'',
            ''https://example.com/a/cat_2.csv'']"
proof -
  have h1: "resolve_prefix site listing_url None = Inr ''https://example.com''"
    by (simp add: resolve_prefix_def derive_prefix_def site_def site_urlparse_def
        site_urlunparse_def)
  have h2: "httpx_get site listing_url False = Inr (ok_response listing_url [] listing_page)"
    by (simp add: site_def site_get_def)
  have h3: "sublist ''example'' ''https://example.com''"
    by (simp add: sublist_Cons_right)
  have "assemble_links site listing_url ''example'' None =
       Inr [''https://example.com/a/cat_1.csv'', ''https://example.com/a/dog_1.csv'',
            ''https://example.com/a/cat_2.csv'']"
    using filter_in_prefix_keeps_all [OF h1 h2 h3]
    by (simp add: site_def site_find_all_a_def ok_response_def List.map_filter_def)
  with h1 h2 h3 show ?thesis by blast
qed



text \<open>
  C7, as the code has it. Without a prefix argument the prefix is \<^verbatim>\<open>urlunparse\<close> of the
  scheme and the network location (\<^verbatim>\<open>netloc\<close>: the host together with any userinfo and
  port) of the URL, with the four other components empty; two URLs that agree on scheme
  and network location get the same prefix, whatever their path, parameters, query and
  fragment are.
\<close>

theorem derived_prefix_scheme_netloc_only:
  assumes "urlparse e url = Inr c1" and "urlparse e url' = Inr c2"
    and "scheme c1 = scheme c2" and "netloc c1 = netloc c2"
  shows "resolve_prefix e url None =
           Inr (urlunparse e \<lparr>scheme = scheme c1, netloc = netloc c1,
                  path = [], params = [], query = [], fragment = []\<rparr>)
         \<and> resolve_prefix e url' None = resolve_prefix e url None"
  using assms by (simp add: resolve_prefix_def derive_prefix_def)

theorem derived_prefix_scheme_netloc_only_witness:
  "urlparse site listing_url =
     Inr \<lparr>scheme = ''https'', netloc = ''example.com'', path = ''/data/index.html'',
          params = [], query = ''page=1'', fragment = ''top''\<rparr>
   \<and> urlparse site ''https://example.com/other/list.html'' =
     Inr \<lparr>scheme = ''https'', netloc = ''example.com'', path = ''/other/list.html'',
          params = [], query = [], fragment = []\<rparr>
   \<and> resolve_prefix site listing_url None = Inr ''https://example.com''
   \<and> resolve_prefix site ''https://example.com/other/list.html'' None
       = Inr ''https://example.com''"
proof -
  have h1: "urlparse site listing_url =
     Inr \<lparr>scheme = ''https'', netloc = ''example.com'', path = ''/data/index.html'',
          params = [], query = ''page=1'', fragment = ''top''\<rparr>"
    by (simp add: site_def site_urlparse_def)
  have h2: "urlparse site ''https://example.com/other/list.html'' =
     Inr \<lparr>scheme = ''https'', netloc = ''example.com'', path = ''/other/list.html'',
          params = [], query = [], fragment = []\<rparr>"
    by (simp add: site_def site_urlparse_def listing_url_def)
  have "resolve_prefix site listing_url None = Inr ''https://example.com''
      \<and> resolve_prefix site ''https://example.com/other/list.html'' None
          = resolve_prefix site listing_url None"
    using derived_prefix_scheme_netloc_only [OF h1 h2]
    by (simp add: site_def site_urlunparse_def)
  with h1 h2 show ?thesis by simp
qed

text \<open>
  The claim as the specification states it (the prefix comes from scheme and host only)
  fails for a URL with a port or with userinfo: the three URLs below have the scheme
  \<^verbatim>\<open>https\<close> and the host \<^verbatim>\<open>example.com\<close>, and get three different prefixes.
\<close>

theorem prefix_keeps_port_and_userinfo_counterexample:
  "urlparse site listing_url =
     Inr \<lparr>scheme = ''https'', netloc = ''example.com'', path = ''/data/index.html'',
          params = [], query = ''page=1'', fragment = ''top''\<rparr>
   \<and> urlparse site ''https://example.com:8443/data/index.html'' =
     Inr \<lparr>scheme = ''https'', netloc = ''example.com:8443'', path = ''/data/index.html'',
          params = [], query = [], fragment = []\<rparr>
   \<and> urlparse site ''https://user:pw@example.com/data/index.html'' =
     Inr \<lparr>scheme = ''https'', netloc = ''user:pw@example.com'', path = ''/data/index.html'',
          params = [], query = [], fragment = []\<rparr>
   \<and> netloc_host ''example.com'' = ''example.com''
   \<and> netloc_host ''example.com:8443'' = ''example.com''
   \<and> netloc_host ''user:pw@example.com'' = ''example.com''
   \<and> resolve_prefix site listing_url None = Inr ''https://example.com''
   \<and> resolve_prefix site ''https://example.com:8443/data/index.html'' None
       = Inr ''https://example.com:8443''
   \<and> resolve_prefix site ''https://user:pw@example.com/data/index.html'' None
       = Inr ''https://user:pw@example.com''
   \<and> resolve_prefix site ''https://example.com:8443/data/index.html'' None
       \<noteq> resolve_prefix site listing_url None
   \<and> resolve_prefix site ''https://user:pw@example.com/data/index.html'' None
       \<noteq> resolve_prefix site listing_url None"
proof -
  have u: "urlparse site listing_url =
     Inr \<lparr>scheme = ''https'', netloc = ''example.com'', path = ''/data/index.html'',
          params = [], query = ''page=1'', fragment = ''top''\<rparr>"
    "urlparse site ''https://example.com:8443/data/index.html'' =
     Inr \<lparr>scheme = ''https'', netloc = ''example.com:8443'', path = ''/data/index.html'',
          params = [], query = [], fragment = []\<rparr>"
    "urlparse site ''https://user:pw@example.com/data/index.html'' =
     Inr \<lparr>scheme = ''https'', netloc = ''user:pw@example.com'', path = ''/data/index.html'',
          params = [], query = [], fragment = []\<rparr>"
    by (simp_all add: site_def site_urlparse_def listing_url_def)
  have h: "netloc_host ''example.com'' = ''example.com''"
    "netloc_host ''example.com:8443'' = ''example.com''"
    "netloc_host ''user:pw@example.com'' = ''example.com''"
    by (simp_all add: netloc_host_def)
  have un: "urlunparse site = site_urlunparse"
    by (simp add: site_def)
  have p: "resolve_prefix site listing_url None = Inr ''https://example.com''"
    "resolve_prefix site ''https://example.com:8443/data/index.html'' None
       = Inr ''https://example.com:8443''"
    "resolve_prefix site ''https://user:pw@example.com/data/index.html'' None
       = Inr ''https://user:pw@example.com''"
    by (simp_all add: resolve_prefix_def derive_prefix_def u un site_urlunparse_def)
  have d: "resolve_prefix site ''https://example.com:8443/data/index.html'' None
       \<noteq> resolve_prefix site listing_url None"
    "resolve_prefix site ''https://user:pw@example.com/data/index.html'' None
       \<noteq> resolve_prefix site listing_url None"
    by (simp_all add: p)
  from u h p d show ?thesis by blast
qed

section \<open>Properties of download\_file\<close>

lemma except_HTTPError_value:
  "fst (except_HTTPError e ex w) = fst (except_HTTPError e ex w')"
  by (cases ex) simp_all

lemma download_file_value: "fst (download_file e url w) = fetch_value e url"
  unfolding fetch_value_def download_file_def
  by (auto split: sum.splits intro: except_HTTPError_value)

lemma download_file_files: "files (snd (download_file e url w)) = files w"
proof -
  have "files (snd (except_HTTPError e ex w)) = files w" for ex
    by (cases ex) (simp_all add: print_line_def)
  then show ?thesis
    by (simp add: download_file_def split: sum.splits)
qed

lemma sublist_diagnostic: "sublist (url_repr e u) (request_diagnostic e u msg)"
  unfolding request_diagnostic_def by (rule sublist_appendI)

text \<open>
  C4, as the code has it. When the GET ends in an \<^verbatim>\<open>httpx.HTTPError\<close> (a request error, or
  a response whose status is not 2xx), \<^verbatim>\<open>download_file\<close> returns \<^verbatim>\<open>None\<close>, raises
  nothing, touches no file and prints one diagnostic, which contains the \<^verbatim>\<open>repr\<close> of the
  URL of the request that the error carries. That URL is the requested one when the
  error belongs to the request for it; after a followed redirect it is the URL of the
  last hop.
\<close>

theorem download_file_failure:
  assumes "httpx_get e url True = Inl (RequestError u msg)
           \<or> httpx_get e url True = Inl (HTTPStatusError u msg)
           \<or> (\<exists>r. httpx_get e url True = Inr r
                  \<and> \<not> (200 \<le> status_code r \<and> status_code r \<le> 299)
                  \<and> request_url r = u \<and> status_message r = msg)"
  shows "download_file e url w = (Inr None, print_line (request_diagnostic e u msg) w)
         \<and> stdout (snd (download_file e url w)) = stdout w @ [request_diagnostic e u msg]
         \<and> files (snd (download_file e url w)) = files w
         \<and> sublist (url_repr e u) (request_diagnostic e u msg)"
proof -
  have "download_file e url w = (Inr None, print_line (request_diagnostic e u msg) w)"
    using assms by (auto simp: download_file_def raise_for_status_def)
  then show ?thesis
    by (simp add: print_line_def sublist_diagnostic)
qed

theorem download_file_failure_witness:
  "httpx_get site ''https://example.com/a/missing.csv'' True
     = Inr (not_found_response ''https://example.com/a/missing.csv'')
   \<and> httpx_get site ''https://example.com/a/down.csv'' True
     = Inl (RequestError ''https://example.com/a/down.csv'' ''[Errno 111] Connection refused'')
   \<and> fst (download_file site ''https://example.com/a/missing.csv'' fresh_world) = Inr None
   \<and> fst (download_file site ''https://example.com/a/down.csv'' fresh_world) = Inr None
   \<and> sublist ''https://example.com/a/missing.csv''
        (last (stdout (snd (download_file site ''https://example.com/a/missing.csv'' fresh_world))))
   \<and> sublist ''https://example.com/a/down.csv''
        (last (stdout (snd (download_file site ''https://example.com/a/down.csv'' fresh_world))))"
proof -
  let ?m = "''https://example.com/a/missing.csv''"
  let ?d = "''https://example.com/a/down.csv''"
  have g1: "httpx_get site ?m True = Inr (not_found_response ?m)"
    by (simp add: site_def site_get_def listing_url_def)
  have g2: "httpx_get site ?d True = Inl (RequestError ?d ''[Errno 111] Connection refused'')"
    by (simp add: site_def site_get_def listing_url_def)
  have h1: "httpx_get site ?m True = Inl (RequestError ?m (status_message (not_found_response ?m)))
           \<or> httpx_get site ?m True = Inl (HTTPStatusError ?m (status_message (not_found_response ?m)))
           \<or> (\<exists>r. httpx_get site ?m True = Inr r
                  \<and> \<not> (200 \<le> status_code r \<and> status_code r \<le> 299)
                  \<and> request_url r = ?m \<and> status_message r = status_message (not_found_response ?m))"
    using g1 by (simp add: not_found_response_def)
  have h2: "httpx_get site ?d True = Inl (RequestError ?d ''[Errno 111] Connection refused'')
           \<or> httpx_get site ?d True = Inl (HTTPStatusError ?d ''[Errno 111] Connection refused'')
           \<or> (\<exists>r. httpx_get site ?d True = Inr r
                  \<and> \<not> (200 \<le> status_code r \<and> status_code r \<le> 299)
                  \<and> request_url r = ?d \<and> status_message r = ''[Errno 111] Connection refused'')"
    using g2 by simp
  have u: "sublist u (url_repr site u)" for u
  proof -
    have "url_repr site u = (''URL('' @ [CHR 0x27]) @ u @ ([CHR 0x27] @ '')'')"
      by (simp add: site_def site_url_repr_def)
    then show ?thesis
      by (simp only: sublist_appendI)
  qed
  have s1: "sublist ?m (request_diagnostic site ?m msg)" for msg
    using u [of ?m] sublist_diagnostic [of site ?m msg] sublist_order.order_trans by blast
  have s2: "sublist ?d (request_diagnostic site ?d msg)" for msg
    using u [of ?d] sublist_diagnostic [of site ?d msg] sublist_order.order_trans by blast
  have d1: "fst (download_file site ?m fresh_world) = Inr None
      \<and> sublist ?m (last (stdout (snd (download_file site ?m fresh_world))))"
    using s1 download_file_failure [OF h1, of fresh_world] by (simp add: print_line_def)
  have d2: "fst (download_file site ?d fresh_world) = Inr None
      \<and> sublist ?d (last (stdout (snd (download_file site ?d fresh_world))))"
    using s2 download_file_failure [OF h2, of fresh_world] by (simp add: print_line_def)
  from g1 g2 d1 d2 show ?thesis by blast
qed

text \<open>
  The claim as the specification states it (the diagnostic mentions the requested URL)
  fails after a followed redirect: the file \<^verbatim>\<open>moved.csv\<close> is redirected to another host,
  the last hop answers 404, and the diagnostic names the last hop only.
\<close>

theorem diagnostic_names_last_hop_counterexample:
  "httpx_get site ''https://example.com/a/moved.csv'' True
     = Inr (not_found_response ''https://cdn.example.org/gone.csv'')
   \<and> status_code (not_found_response ''https://cdn.example.org/gone.csv'') = 404
   \<and> download_file site ''https://example.com/a/moved.csv'' fresh_world
     = (Inr None,
        \<lparr>files = Map.empty,
         stdout = [''Error while requesting URL('' @ [CHR 0x27]
                     @ ''https://cdn.example.org/gone.csv'' @ [CHR 0x27] @ '').'' @ [CHR 0x0A]
                     @ ''Client error 404 Not Found for url https://cdn.example.org/gone.csv'']\<rparr>)
   \<and> \<not> sublist ''https://example.com/a/moved.csv''
          (''Error while requesting URL('' @ [CHR 0x27]
             @ ''https://cdn.example.org/gone.csv'' @ [CHR 0x27] @ '').'' @ [CHR 0x0A]
             @ ''Client error 404 Not Found for url https://cdn.example.org/gone.csv'')"
  by (simp add: download_file_def raise_for_status_def site_def site_get_def listing_url_def
      not_found_response_def request_diagnostic_def site_url_repr_def print_line_def
      fresh_world_def sublist_Cons_right)

section \<open>Properties of write\_file\<close>

text \<open>
  C6. When the target path is writable (opening, writing and closing complete),
  \<^verbatim>\<open>write_file\<close> returns the status \<^verbatim>\<open>Completed write to: \<close> followed by the target
  path, and leaves at that path a file holding exactly the given bytes, whether the file
  was absent or held something else before; no other file changes and nothing is
  printed by \<^verbatim>\<open>write_file\<close> itself.
\<close>

theorem write_file_roundtrip:
  assumes "write_bytes e local_path cont = IoCompleted"
  shows "write_file e cont local_path w =
           (Inr (''Completed write to: '' @ local_path),
            w\<lparr>files := (files w)(local_path \<mapsto> cont)\<rparr>)
         \<and> files (snd (write_file e cont local_path w)) local_path = Some cont
         \<and> (\<forall>q. q \<noteq> local_path
               \<longrightarrow> files (snd (write_file e cont local_path w)) q = files w q)
         \<and> stdout (snd (write_file e cont local_path w)) = stdout w
         \<and> sublist local_path (''Completed write to: '' @ local_path)"
proof -
  have eq: "write_file e cont local_path w =
           (Inr (''Completed write to: '' @ local_path),
            w\<lparr>files := (files w)(local_path \<mapsto> cont)\<rparr>)"
    using assms by (simp add: write_file_def)
  have s: "sublist local_path (''Completed write to: '' @ local_path)"
    by (rule sublist_append_leftI)
  have a: "files (snd (write_file e cont local_path w)) local_path = Some cont"
    by (simp add: eq)
  have b: "\<forall>q. q \<noteq> local_path
               \<longrightarrow> files (snd (write_file e cont local_path w)) q = files w q"
    by (simp add: eq)
  have c: "stdout (snd (write_file e cont local_path w)) = stdout w"
    by (simp add: eq)
  show ?thesis
    by (intro conjI) (rule eq, rule a, rule b, rule c, rule s)
qed

theorem write_file_roundtrip_witness:
  "write_bytes site ''out/cat_1.csv'' [7, 8, 9] = IoCompleted
   \<and> files fresh_world ''out/cat_1.csv'' = None
   \<and> fst (write_file site [7, 8, 9] ''out/cat_1.csv'' fresh_world)
       = Inr ''Completed write to: out/cat_1.csv''
   \<and> files (snd (write_file site [7, 8, 9] ''out/cat_1.csv'' fresh_world)) ''out/cat_1.csv''
       = Some [7, 8, 9]
   \<and> files (snd (write_file site [7, 8, 9] ''out/cat_1.csv''
                    \<lparr>files = [''out/cat_1.csv'' \<mapsto> [1], ''out/keep.csv'' \<mapsto> [2]],
                     stdout = []\<rparr>)) ''out/cat_1.csv''
       = Some [7, 8, 9]
   \<and> files (snd (write_file site [7, 8, 9] ''out/cat_1.csv''
                    \<lparr>files = [''out/cat_1.csv'' \<mapsto> [1], ''out/keep.csv'' \<mapsto> [2]],
                     stdout = []\<rparr>)) ''out/keep.csv''
       = Some [2]"
proof -
  let ?p = "''out/cat_1.csv''"
  let ?w = "\<lparr>files = [?p \<mapsto> [1::8 word], ''out/keep.csv'' \<mapsto> [2]], stdout = []\<rparr>"
  have h: "write_bytes site ?p [7, 8, 9] = IoCompleted"
    by (simp add: site_def site_write_bytes_def)
  have absent: "files fresh_world ?p = None"
    by (simp add: fresh_world_def)
  note r1 = write_file_roundtrip [OF h, of fresh_world]
  note r2 = write_file_roundtrip [OF h, of ?w]
  have "write_file site [7, 8, 9] ?p fresh_world =
      (Inr (''Completed write to: '' @ ?p),
       fresh_world\<lparr>files := (files fresh_world)(?p \<mapsto> [7, 8, 9])\<rparr>)"
    by (rule r1 [THEN conjunct1])
  then have "fst (write_file site [7, 8, 9] ?p fresh_world) = Inr (''Completed write to: '' @ ?p)"
    by (simp only: fst_conv)
  then have c1: "fst (write_file site [7, 8, 9] ?p fresh_world)
      = Inr ''Completed write to: out/cat_1.csv''"
    by (simp only: append_Cons append_Nil)
  have c2: "files (snd (write_file site [7, 8, 9] ?p fresh_world)) ?p = Some [7, 8, 9]"
    by (rule r1 [THEN conjunct2, THEN conjunct1])
  have c3: "files (snd (write_file site [7, 8, 9] ?p ?w)) ?p = Some [7, 8, 9]"
    by (rule r2 [THEN conjunct2, THEN conjunct1])
  have ne: "''out/keep.csv'' \<noteq> ?p"
    by simp
  have "files (snd (write_file site [7, 8, 9] ?p ?w)) ''out/keep.csv''
      = files ?w ''out/keep.csv''"
    by (rule r2 [THEN conjunct2, THEN conjunct2, THEN conjunct1, THEN spec, THEN mp, OF ne])
  also have "files ?w ''out/keep.csv'' = Some [2]"
    by simp
  finally have c4: "files (snd (write_file site [7, 8, 9] ?p ?w)) ''out/keep.csv'' = Some [2]" .
  show ?thesis
    by (intro conjI) (rule h, rule absent, rule c1, rule c2, rule c3, rule c4)
qed

section \<open>Properties of the download loop\<close>

lemma except_HTTPError_not_Some: "fst (except_HTTPError e ex w) \<noteq> Inr (Some b)"
  by (cases ex) simp_all

lemma download_file_Some_world:
  assumes "download_file e link w = (Inr (Some b), w1)"
  shows "w1 = w"
proof (cases "httpx_get e link True")
  case (Inl ex)
  with assms have "fst (except_HTTPError e ex w) = Inr (Some b)"
    by (simp add: download_file_def)
  then show ?thesis by (simp add: except_HTTPError_not_Some)
next
  case (Inr r)
  show ?thesis
  proof (cases "raise_for_status r")
    case (Inl ex)
    with assms Inr have "fst (except_HTTPError e ex w) = Inr (Some b)"
      by (simp add: download_file_def)
    then show ?thesis by (simp add: except_HTTPError_not_Some)
  next
    case (Inr r')
    with assms \<open>httpx_get e link True = Inr r\<close> show ?thesis
      by (simp add: download_file_def)
  qed
qed

lemma download_file_cases:
  obtains (raised) ex w1 where "download_file e link w = (Inl ex, w1)"
      and "fetch_value e link = Inl ex"
  | (failed) w1 where "download_file e link w = (Inr None, w1)"
      and "fetch_value e link = Inr None" and "files w1 = files w"
  | (fetched) b where "download_file e link w = (Inr (Some b), w)"
      and "fetch_value e link = Inr (Some b)"
proof -
  obtain v w1 where d: "download_file e link w = (v, w1)"
    by (cases "download_file e link w")
  have v: "fetch_value e link = v"
    using download_file_value [of e link w] d by simp
  have f: "files w1 = files w"
    using download_file_files [of e link w] d by simp
  show thesis
  proof (cases v)
    case (Inl ex)
    show ?thesis
      by (rule raised [of ex w1]) (simp_all add: d v Inl)
  next
    case (Inr ob)
    show ?thesis
    proof (cases ob)
      case None
      show ?thesis
        by (rule failed [of w1]) (simp_all add: d v Inr None f)
    next
      case (Some b)
      have "w1 = w"
        using d Inr Some download_file_Some_world [of e link w b w1] by simp
      then show ?thesis
        using fetched [of b] d v Inr Some by simp
    qed
  qed
qed

lemma download_loop_count:
  "download_loop e out_dir pairs n w = (Inr fcount, w')
   \<Longrightarrow> fcount = n + length (filter (fetch_truthy e) (map fst pairs))"
proof (induction pairs arbitrary: n w)
  case Nil
  then show ?case by simp
next
  case (Cons pr rest)
  obtain link fname where pr: "pr = (link, fname)"
    by (cases pr)
  show ?case
  proof (cases rule: download_file_cases [of e link w])
    case (raised ex w1)
    with Cons.prems pr show ?thesis by simp
  next
    case (failed w1)
    then have "download_loop e out_dir rest n w1 = (Inr fcount, w')"
      using Cons.prems pr by simp
    from Cons.IH [OF this] failed pr show ?thesis
      by (simp add: fetch_truthy_def)
  next
    case (fetched b)
    show ?thesis
    proof (cases "b = []")
      case True
      then have "download_loop e out_dir rest n w = (Inr fcount, w')"
        using Cons.prems pr fetched by simp
      from Cons.IH [OF this] fetched pr True show ?thesis
        by (simp add: fetch_truthy_def)
    next
      case False
      obtain v w2 where wf: "write_file e b (joinpath e out_dir fname) w = (v, w2)"
        by (cases "write_file e b (joinpath e out_dir fname) w")
      show ?thesis
      proof (cases v)
        case (Inl ex)
        with Cons.prems pr fetched False wf show ?thesis by simp
      next
        case (Inr st)
        then have "download_loop e out_dir rest (n + 1) (print_line st w2) = (Inr fcount, w')"
          using Cons.prems pr fetched False wf by simp
        from Cons.IH [OF this] fetched pr False show ?thesis
          by (simp add: fetch_truthy_def)
      qed
    qed
  qed
qed

lemma get_link_data_result:
  assumes "get_link_data e url c out_dir w = (Inr (cnt, tot), w')"
  shows "\<exists>links. assemble_links e url c None = Inr links \<and> tot = length links
           \<and> cnt = length (filter (fetch_truthy e) links)"
proof (cases "assemble_links e url c None")
  case (Inl ex)
  with assms show ?thesis by (simp add: get_link_data_def)
next
  case (Inr links)
  obtain v w1 where l: "download_loop e out_dir (zip links (map (path_name e) links)) 0 w = (v, w1)"
    by (cases "download_loop e out_dir (zip links (map (path_name e) links)) 0 w")
  show ?thesis
  proof (cases v)
    case (Inl ex)
    with assms Inr l show ?thesis by (simp add: get_link_data_def)
  next
    case (Inr fcount)
    with assms \<open>assemble_links e url c None = Inr links\<close> l
    have "cnt = fcount" and "tot = length links"
      by (simp_all add: get_link_data_def)
    moreover have "map fst (zip links (map (path_name e) links)) = links"
      by (simp add: map_fst_zip)
    then have "fcount = length (filter (fetch_truthy e) links)"
      using download_loop_count [of e out_dir "zip links (map (path_name e) links)" 0 w fcount w1]
        l Inr
      by (simp only: add_0)
    ultimately show ?thesis
      using \<open>assemble_links e url c None = Inr links\<close> by simp
  qed
qed

text \<open>
  C8. A fetch that succeeds with a zero-length body is skipped like a failed fetch: the
  value is \<^verbatim>\<open>b""\<close>, the test \<^verbatim>\<open>if dl_bytes:\<close> fails, and the iteration for the link
  writes no file, prints nothing and leaves the counter as it was.
\<close>

theorem empty_body_is_skipped:
  assumes "httpx_get e link True = Inr r"
    and "200 \<le> status_code r \<and> status_code r \<le> 299"
    and "content r = []"
  shows "download_file e link w = (Inr (Some []), w)
         \<and> \<not> fetch_truthy e link
         \<and> download_loop e out_dir ((link, fname) # rest) fcount w
             = download_loop e out_dir rest fcount w
         \<and> download_loop e out_dir [(link, fname)] fcount w = (Inr fcount, w)"
proof -
  have d: "download_file e link w' = (Inr (Some []), w')" for w'
    using assms by (simp add: download_file_def raise_for_status_def)
  then have "fetch_value e link = Inr (Some [])"
    by (simp add: fetch_value_def)
  then have "\<not> fetch_truthy e link"
    by (simp add: fetch_truthy_def)
  with d show ?thesis by simp
qed

theorem empty_body_is_skipped_witness:
  "httpx_get site ''https://example.com/a/dog_1.csv'' True
     = Inr (ok_response ''https://example.com/a/dog_1.csv'' [] [])
   \<and> status_code (ok_response ''https://example.com/a/dog_1.csv'' [] []) = 200
   \<and> content (ok_response ''https://example.com/a/dog_1.csv'' [] []) = []
   \<and> download_loop site ''out'' [(''https://example.com/a/dog_1.csv'', ''dog_1.csv'')] 0 fresh_world
       = (Inr 0, fresh_world)"
proof -
  let ?u = "''https://example.com/a/dog_1.csv''"
  have h1: "httpx_get site ?u True = Inr (ok_response ?u [] [])"
    by (simp add: site_def site_get_def listing_url_def)
  have h2: "200 \<le> status_code (ok_response ?u [] []) \<and> status_code (ok_response ?u [] []) \<le> 299"
    by (simp add: ok_response_def)
  have h3: "content (ok_response ?u [] []) = []"
    by (simp add: ok_response_def)
  have "download_loop site ''out'' [(?u, ''dog_1.csv'')] 0 fresh_world = (Inr 0, fresh_world)"
    using empty_body_is_skipped [OF h1 h2 h3, of fresh_world "''out''" "''dog_1.csv''" "[]" 0]
    by blast
  moreover have "status_code (ok_response ?u [] []) = 200"
    by (simp add: ok_response_def)
  ultimately show ?thesis using h1 h3 by blast
qed

text \<open>
  C2. The success counter that \<^verbatim>\<open>get_link_data\<close> returns is the number of links for which
  \<^verbatim>\<open>download_file\<close> returned non-empty content; and an iteration whose fetch returned
  non-empty content increments the counter whatever status \<^verbatim>\<open>write_file\<close> returns for
  it, a failed write included.
\<close>

theorem counter_counts_nonempty_fetches:
  assumes "get_link_data e url c out_dir w = (Inr (cnt, tot), w')"
    and "fetch_value e link = Inr (Some b)" and "b \<noteq> []"
    and "fst (write_file e b (joinpath e out_dir fname) w0) = Inr st"
  shows "(\<exists>links. assemble_links e url c None = Inr links
            \<and> cnt = length (filter (fetch_truthy e) links))
         \<and> fst (download_loop e out_dir [(link, fname)] n w0) = Inr (n + 1)"
proof -
  have "\<exists>links. assemble_links e url c None = Inr links
            \<and> cnt = length (filter (fetch_truthy e) links)"
    using get_link_data_result [OF assms(1)] by blast
  moreover have "fst (download_loop e out_dir [(link, fname)] n w0) = Inr (n + 1)"
  proof (cases rule: download_file_cases [of e link w0])
    case (raised ex w1)
    with assms(2) show ?thesis by simp
  next
    case (failed w1)
    with assms(2) show ?thesis by simp
  next
    case (fetched b')
    with assms(2) have "b' = b" by simp
    obtain v w2 where wf: "write_file e b (joinpath e out_dir fname) w0 = (v, w2)"
      by (cases "write_file e b (joinpath e out_dir fname) w0")
    with assms(4) have "v = Inr st" by simp
    with fetched \<open>b' = b\<close> assms(3) wf show ?thesis by simp
  qed
  ultimately show ?thesis by blast
qed


lemma site_cat_links:
  "assemble_links site listing_url ''cat'' None =
     Inr [''https://example.com/a/cat_1.csv'', ''https://example.com/a/cat_2.csv'']"
  by (simp add: assemble_links_def resolve_prefix_def derive_prefix_def site_def
      site_urlparse_def site_urlunparse_def site_get_def ok_response_def
      site_find_all_a_def prefixed_hrefs_def sublist_Cons_right)

lemma site_fetch_cat_1:
  "download_file site ''https://example.com/a/cat_1.csv'' w = (Inr (Some [1, 2, 3]), w)"
  by (simp add: download_file_def raise_for_status_def site_def site_get_def listing_url_def
      ok_response_def)

lemma site_fetch_cat_2:
  "download_file site ''https://example.com/a/cat_2.csv'' w = (Inr (Some [4, 5]), w)"
  by (simp add: download_file_def raise_for_status_def site_def site_get_def listing_url_def
      ok_response_def)

lemma site_write_cat_1:
  "write_file site b ''out/cat_1.csv'' w =
     (Inr ''Completed write to: out/cat_1.csv'', w\<lparr>files := (files w)(''out/cat_1.csv'' \<mapsto> b)\<rparr>)"
  by (simp add: write_file_def site_def site_write_bytes_def)

lemma site_write_cat_2:
  "write_file site b ''out/cat_2.csv'' w =
     (Inr ''Failed to write to: out/cat_2.csv'',
      print_line ''Cannot write to file: [Errno 13] Permission denied'' w)"
  by (simp add: write_file_def site_def site_write_bytes_def)

lemma site_names:
  "path_name site ''https://example.com/a/cat_1.csv'' = ''cat_1.csv''"
  "path_name site ''https://example.com/a/cat_2.csv'' = ''cat_2.csv''"
  "joinpath site ''out'' ''cat_1.csv'' = ''out/cat_1.csv''"
  "joinpath site ''out'' ''cat_2.csv'' = ''out/cat_2.csv''"
  by (simp_all add: site_def site_path_name_def site_joinpath_def)

lemma site_cat_run:
  "get_link_data site listing_url ''cat'' ''out'' w =
     (Inr (2, 2),
      w\<lparr>files := (files w)(''out/cat_1.csv'' \<mapsto> [1, 2, 3]),
        stdout := stdout w @ [''Completed write to: out/cat_1.csv'',
                              ''Cannot write to file: [Errno 13] Permission denied'',
                              ''Failed to write to: out/cat_2.csv'']\<rparr>)"
  by (simp add: get_link_data_def site_cat_links site_names site_fetch_cat_1 site_fetch_cat_2
      site_write_cat_1 site_write_cat_2 print_line_def)

lemma str_nat_digits:
  "str_nat 0 = ''0''" "str_nat 1 = ''1''" "str_nat (Suc 0) = ''1''" "str_nat 2 = ''2''"
  by code_simp+

lemma site_cat_main:
  "main (get_link_data site) site listing_url ''cat'' ''out'' fresh_world =
     (Inr (),
      \<lparr>files = [''out/cat_1.csv'' \<mapsto> [1, 2, 3]],
       stdout = [''Output directory (out) already exists.'',
                 ''Completed write to: out/cat_1.csv'',
                 ''Cannot write to file: [Errno 13] Permission denied'',
                 ''Failed to write to: out/cat_2.csv'',
                 [CHR 0x0A] @ ''2 downloads in 0.5 seconds.'',
                 [CHR 0x0A] @ ''0 downloads failed.'']\<rparr>)"
proof -
  have "mkdir_parents site ''out'' = MkdirFileExists" and "elapsed_str site = ''0.5''"
    by (simp_all add: site_def site_mkdir_def)
  then show ?thesis
    by (simp add: main_def site_cat_run print_line_def fresh_world_def str_int_def
        str_nat_digits)
qed


theorem counter_counts_nonempty_fetches_witness:
  "get_link_data site listing_url ''cat'' ''out'' fresh_world
     = (Inr (2, 2), snd (get_link_data site listing_url ''cat'' ''out'' fresh_world))
   \<and> fetch_value site ''https://example.com/a/cat_2.csv'' = Inr (Some [4, 5])
   \<and> fst (write_file site [4, 5] (joinpath site ''out'' ''cat_2.csv'') fresh_world)
       = Inr ''Failed to write to: out/cat_2.csv''
   \<and> length (filter (fetch_truthy site)
         [''https://example.com/a/cat_1.csv'', ''https://example.com/a/cat_2.csv'']) = 2
   \<and> fst (download_loop site ''out'' [(''https://example.com/a/cat_2.csv'', ''cat_2.csv'')] 0
            fresh_world) = Inr 1"
proof -
  let ?c2 = "''https://example.com/a/cat_2.csv''"
  have h1: "get_link_data site listing_url ''cat'' ''out'' fresh_world
     = (Inr (2, 2), snd (get_link_data site listing_url ''cat'' ''out'' fresh_world))"
    by (simp add: site_cat_run)
  have h2: "fetch_value site ?c2 = Inr (Some [4, 5])"
    by (simp add: fetch_value_def site_fetch_cat_2)
  have h3: "[4, 5 :: 8 word] \<noteq> []"
    by simp
  have h4: "fst (write_file site [4, 5] (joinpath site ''out'' ''cat_2.csv'') fresh_world)
       = Inr ''Failed to write to: out/cat_2.csv''"
    by (simp add: site_names site_write_cat_2)
  note r = counter_counts_nonempty_fetches [OF h1 h2 h3 h4, of 0]
  from r obtain links where "assemble_links site listing_url ''cat'' None = Inr links"
    and "2 = length (filter (fetch_truthy site) links)"
    by blast
  then have "length (filter (fetch_truthy site) [''https://example.com/a/cat_1.csv'', ?c2]) = 2"
    by (simp add: site_cat_links)
  moreover from r have
    "fst (download_loop site ''out'' [(?c2, ''cat_2.csv'')] 0 fresh_world) = Inr 1"
    by simp
  ultimately show ?thesis using h1 h2 h4 by blast
qed

text \<open>
  C1, as the code has it. When \<^verbatim>\<open>main\<close> runs \<^verbatim>\<open>get_link_data\<close> to the end, the total that
  \<^verbatim>\<open>get_link_data\<close> returns is the number of links \<^verbatim>\<open>assemble_links\<close> returned, the count
  is the number of those links whose fetch returned non-empty content, and the last two
  lines printed report that count and the total minus that count as the failures. The
  outcome of the writes does not enter.
\<close>

theorem reported_failures_are_total_minus_fetched:
  assumes "main (get_link_data e) e url c out_dir w = (Inr (), w')"
  shows "\<exists>links w0 w1.
           assemble_links e url c None = Inr links
           \<and> get_link_data e url c out_dir w0
               = (Inr (length (filter (fetch_truthy e) links), length links), w1)
           \<and> stdout w' = stdout w1 @
               [[CHR 0x0A] @ str_nat (length (filter (fetch_truthy e) links))
                  @ '' downloads in '' @ elapsed_str e @ '' seconds.'',
                [CHR 0x0A] @ str_int (int (length links)
                                       - int (length (filter (fetch_truthy e) links)))
                  @ '' downloads failed.'']"
proof -
  define w0 where "w0 = (if mkdir_parents e out_dir = MkdirFileExists
      then print_line (''Output directory ('' @ out_dir @ '') already exists.'') w else w)"
  obtain v w1 where g: "get_link_data e url c out_dir w0 = (v, w1)"
    by (cases "get_link_data e url c out_dir w0")
  have m: "main (get_link_data e) e url c out_dir w =
      (case v of
         Inl ex \<Rightarrow> (Inl ex, w1)
       | Inr (cnt, tot) \<Rightarrow>
           (Inr (),
            print_line ([CHR 0x0A] @ str_int (int tot - int cnt) @ '' downloads failed.'')
              (print_line ([CHR 0x0A] @ str_nat cnt @ '' downloads in '' @ elapsed_str e
                             @ '' seconds.'') w1)))"
  proof (cases "mkdir_parents e out_dir")
    case MkdirCreated
    then have "w0 = w" by (simp add: w0_def)
    with g MkdirCreated show ?thesis by (simp add: main_def)
  next
    case MkdirFileExists
    then have "w0 = print_line (''Output directory ('' @ out_dir @ '') already exists.'') w"
      by (simp add: w0_def)
    with g MkdirFileExists show ?thesis by (simp add: main_def)
  next
    case (MkdirOtherException msg)
    with assms show ?thesis by (simp add: main_def)
  qed
  from assms m obtain cnt tot where v: "v = Inr (cnt, tot)"
    and w': "w' = print_line ([CHR 0x0A] @ str_int (int tot - int cnt) @ '' downloads failed.'')
                 (print_line ([CHR 0x0A] @ str_nat cnt @ '' downloads in '' @ elapsed_str e
                                @ '' seconds.'') w1)"
    by (cases v) auto
  from g v have g': "get_link_data e url c out_dir w0 = (Inr (cnt, tot), w1)"
    by simp
  from get_link_data_result [OF g'] obtain links
    where l: "assemble_links e url c None = Inr links" and t: "tot = length links"
      and c: "cnt = length (filter (fetch_truthy e) links)"
    by blast
  have "stdout w' = stdout w1 @
      [[CHR 0x0A] @ str_nat cnt @ '' downloads in '' @ elapsed_str e @ '' seconds.'',
       [CHR 0x0A] @ str_int (int tot - int cnt) @ '' downloads failed.'']"
    by (simp add: w' print_line_def)
  with l g' t c show ?thesis by blast
qed

theorem reported_failures_are_total_minus_fetched_witness:
  "main (get_link_data site) site listing_url ''cat'' ''out'' fresh_world =
     (Inr (),
      \<lparr>files = [''out/cat_1.csv'' \<mapsto> [1, 2, 3]],
       stdout = [''Output directory (out) already exists.'',
                 ''Completed write to: out/cat_1.csv'',
                 ''Cannot write to file: [Errno 13] Permission denied'',
                 ''Failed to write to: out/cat_2.csv'',
                 [CHR 0x0A] @ ''2 downloads in 0.5 seconds.'',
                 [CHR 0x0A] @ ''0 downloads failed.'']\<rparr>)
   \<and> (\<exists>links. assemble_links site listing_url ''cat'' None = Inr links
         \<and> length links = 2 \<and> length (filter (fetch_truthy site) links) = 2)"
proof -
  note r = reported_failures_are_total_minus_fetched [OF site_cat_main]
  then obtain links w0 w1
    where l: "assemble_links site listing_url ''cat'' None = Inr links"
      and g: "get_link_data site listing_url ''cat'' ''out'' w0
               = (Inr (length (filter (fetch_truthy site) links), length links), w1)"
    by blast
  from g have "length (filter (fetch_truthy site) links) = 2" and "length links = 2"
    by (simp_all add: site_cat_run)
  with l site_cat_main show ?thesis by blast
qed

text \<open>
  The claim as the specification states it (failures = total minus successful writes)
  fails on the example site: both \<^verbatim>\<open>cat\<close> files are fetched, the write of the second
  one fails, so one write is reported as completed out of two links, and the run
  reports 0 failed downloads.
\<close>

theorem failed_write_not_reported_counterexample:
  "assemble_links site listing_url ''cat'' None =
     Inr [''https://example.com/a/cat_1.csv'', ''https://example.com/a/cat_2.csv'']
   \<and> fst (get_link_data site listing_url ''cat'' ''out'' fresh_world) = Inr (2, 2)
   \<and> completed_writes (snd (main (get_link_data site) site listing_url ''cat'' ''out'' fresh_world))
       = 1
   \<and> last (stdout (snd (main (get_link_data site) site listing_url ''cat'' ''out'' fresh_world)))
       = [CHR 0x0A] @ ''0 downloads failed.''
   \<and> last (stdout (snd (main (get_link_data site) site listing_url ''cat'' ''out'' fresh_world)))
       \<noteq> [CHR 0x0A] @ str_int (2 - int (completed_writes
               (snd (main (get_link_data site) site listing_url ''cat'' ''out'' fresh_world))))
             @ '' downloads failed.''"
proof -
  have c: "completed_writes
      (snd (main (get_link_data site) site listing_url ''cat'' ''out'' fresh_world)) = 1"
    by (simp add: site_cat_main completed_writes_def)
  have l: "last (stdout (snd (main (get_link_data site) site listing_url ''cat'' ''out''
      fresh_world))) = [CHR 0x0A] @ ''0 downloads failed.''"
    by (simp add: site_cat_main)
  have "str_int (2 - int 1) = ''1''"
    by (simp add: str_int_def str_nat_digits)
  then show ?thesis
    unfolding c l by (simp add: site_cat_links site_cat_run)
qed

section \<open>Failure of the listing request\<close>

text \<open>
  C5. When the GET of the listing page raises, \<^verbatim>\<open>assemble_links\<close> does not catch the
  exception: it leaves \<^verbatim>\<open>assemble_links\<close> and \<^verbatim>\<open>get_link_data\<close> with nothing downloaded,
  written or printed, and \<^verbatim>\<open>main\<close> ends with an exception without printing its summary.
  The same request error on the GET of a single file is caught by \<^verbatim>\<open>download_file\<close>,
  which returns \<^verbatim>\<open>None\<close>.
\<close>

theorem listing_failure_propagates:
  assumes "resolve_prefix e url None = Inr p" and "httpx_get e url False = Inl ex"
    and "httpx_get e link True = Inl (RequestError u msg)"
  shows "assemble_links e url c pfx = Inl ex
         \<and> get_link_data e url c out_dir w = (Inl ex, w)
         \<and> fst (main (get_link_data e) e url c out_dir w)
             = (case mkdir_parents e out_dir of
                  MkdirOtherException m \<Rightarrow> Inl (OtherException m)
                | _ \<Rightarrow> Inl ex)
         \<and> files (snd (main (get_link_data e) e url c out_dir w)) = files w
         \<and> fst (download_file e link w) = Inr None"
proof -
  have "\<exists>q. resolve_prefix e url pfx = Inr q"
    using assms(1) by (cases pfx) (simp_all add: resolve_prefix_def)
  then have a: "assemble_links e url c pfx = Inl ex" for pfx c
    using assms(1,2) by (cases pfx) (auto simp: assemble_links_def resolve_prefix_def)
  then have g: "get_link_data e url c out_dir w' = (Inl ex, w')" for w'
    by (simp add: get_link_data_def)
  have m: "fst (main (get_link_data e) e url c out_dir w)
             = (case mkdir_parents e out_dir of
                  MkdirOtherException m \<Rightarrow> Inl (OtherException m)
                | _ \<Rightarrow> Inl ex)
         \<and> files (snd (main (get_link_data e) e url c out_dir w)) = files w"
    by (cases "mkdir_parents e out_dir") (simp_all add: main_def g print_line_def)
  have "fst (download_file e link w) = Inr None"
    using assms(3) by (simp add: download_file_def)
  with a g m show ?thesis by blast
qed

theorem listing_failure_propagates_witness:
  "resolve_prefix site ''https://down.example.com/index.html'' None
     = Inr ''https://down.example.com''
   \<and> httpx_get site ''https://down.example.com/index.html'' False
     = Inl (RequestError ''https://down.example.com/index.html'' ''[Errno 111] Connection refused'')
   \<and> httpx_get site ''https://example.com/a/down.csv'' True
     = Inl (RequestError ''https://example.com/a/down.csv'' ''[Errno 111] Connection refused'')
   \<and> main (get_link_data site) site ''https://down.example.com/index.html'' ''cat'' ''new''
        fresh_world
     = (Inl (RequestError ''https://down.example.com/index.html''
               ''[Errno 111] Connection refused''), fresh_world)
   \<and> fst (download_file site ''https://example.com/a/down.csv'' fresh_world) = Inr None"
proof -
  let ?l = "''https://down.example.com/index.html''"
  let ?d = "''https://example.com/a/down.csv''"
  let ?ex = "RequestError ?l ''[Errno 111] Connection refused''"
  have h1: "resolve_prefix site ?l None = Inr ''https://down.example.com''"
    by (simp add: resolve_prefix_def derive_prefix_def site_def site_urlparse_def
        site_urlunparse_def listing_url_def)
  have h2: "httpx_get site ?l False = Inl ?ex"
    by (simp add: site_def site_get_def listing_url_def)
  have h3: "httpx_get site ?d True = Inl (RequestError ?d ''[Errno 111] Connection refused'')"
    by (simp add: site_def site_get_def listing_url_def)
  note r = listing_failure_propagates [OF h1 h2 h3, of "''cat''" None "''new''" fresh_world]
  have mk: "mkdir_parents site ''new'' = MkdirCreated"
    by (simp add: site_def site_mkdir_def)
  from r have g: "get_link_data site ?l ''cat'' ''new'' fresh_world = (Inl ?ex, fresh_world)"
    by blast
  have "main (get_link_data site) site ?l ''cat'' ''new'' fresh_world = (Inl ?ex, fresh_world)"
    by (simp add: main_def mk g)
  moreover from r have "fst (download_file site ?d fresh_world) = Inr None"
    by blast
  ultimately show ?thesis using h1 h2 h3 by blast
qed

end
